theory Spec2Isabelle
  imports Main "HOL-Library.AList"
begin

section \<open>The bolt-backed core repository (lib/repository/bolt.go)\<close>

text \<open>
  The repository keeps two buckets of a bolt database: \<open>users\<close>, keyed by the decimal
  form of a user's identifier, and \<open>checks\<close>, keyed by the canonical string of a
  checklist reference. Every operation of \<open>bolt.go\<close> is modelled as a function of the
  database state that returns what the Go function returns together with the state
  after the call. A Go \<open>[]byte\<close> and a Go \<open>string\<close> are both byte sequences: \<open>string\<close>.
\<close>

subsection \<open>Errors, panics\<close>

text \<open>
  Go errors as values. \<open>ErrNotFoundUser\<close> is the \<open>fmt.Errorf("not found: user id=%v", id)\<close>
  of \<open>GetUsers\<close>; \<open>ErrWrap e msg\<close> is what \<open>errors.Wrap(e, msg)\<close> builds around a non-nil
  error. The other constructors are errors made by the collaborators that are not part
  of \<open>bolt.go\<close>: reference validation, the JSON codec and the bolt engine.
\<close>

datatype error =
    ErrNotFoundUser int
  | ErrWrap error string
  | ErrInvalidRef string
  | ErrJSON string
  | ErrBolt string

text \<open>\<open>errors.Wrap\<close> returns nil for a nil error.\<close>

definition Wrap :: "error option \<Rightarrow> string \<Rightarrow> error option" where
  "Wrap err msg = (case err of None \<Rightarrow> None | Some e \<Rightarrow> Some (ErrWrap e msg))"

text \<open>A call either panics (a Go run-time panic unwinds the caller) or returns.\<close>

datatype 'a outcome = Panic | Return 'a

subsection \<open>Domain types of package prchecklist\<close>

text \<open>
  Modelled from the spec: the declaration of \<open>prchecklist.GitHubUser\<close> is not among the
  sources. The spec gives a user an integer identifier, a display login name and an
  avatar reference; \<open>bolt.go\<close> reads only the field \<open>ID\<close>, of Go type \<open>int\<close>, and converts
  it with \<open>int64(user.ID)\<close>, which keeps its value.
\<close>

record GitHubUser =
  ID :: int
  Login :: string
  AvatarURL :: string

text \<open>
  Modelled from the spec: \<open>prchecklist.Checks\<close> and its methods \<open>Add\<close> and \<open>Remove\<close> are not
  among the sources. The spec describes a CheckSet as a mapping from an item key to the
  set of user identifiers that checked the item, kept in insertion order, in which
  adding a user already present and removing a user not present change nothing and
  report "unchanged". \<open>bolt.go\<close> shows that the type is nillable, that \<open>Checks{}\<close> is the
  empty value, and that both methods take the item key and the user, mutate the
  receiver and return a bool that is false when nothing changed.
\<close>

type_synonym Checks = "(string \<times> int list) list"

definition checked_by :: "Checks \<Rightarrow> string \<Rightarrow> int list" where
  "checked_by c k = (case map_of c k of None \<Rightarrow> [] | Some us \<Rightarrow> us)"

definition Checks_Add :: "string \<Rightarrow> GitHubUser \<Rightarrow> Checks \<Rightarrow> bool \<times> Checks" where
  "Checks_Add k user c =
     (if ID user \<in> set (checked_by c k) then (False, c)
      else (True, AList.update k (checked_by c k @ [ID user]) c))"

definition Checks_Remove :: "string \<Rightarrow> GitHubUser \<Rightarrow> Checks \<Rightarrow> bool \<times> Checks" where
  "Checks_Remove k user c =
     (if ID user \<notin> set (checked_by c k) then (False, c)
      else (True, AList.update k (removeAll (ID user) (checked_by c k)) c))"

text \<open>
  A nillable Go map is an option: \<open>None\<close> is the nil map, which holds no entry.
\<close>

definition entries :: "Checks option \<Rightarrow> Checks" where
  "entries checks = (case checks of None \<Rightarrow> [] | Some c \<Rightarrow> c)"

subsection \<open>The bolt database\<close>

type_synonym bucket = "string \<rightharpoonup> string"

text \<open>The database file: its named buckets.\<close>

type_synonym store = "string \<rightharpoonup> bucket"

definition boltBucketNameUsers :: string where
  "boltBucketNameUsers = ''users''"

definition boltBucketNameChecks :: string where
  "boltBucketNameChecks = ''checks''"

subsection \<open>Collaborators\<close>

text \<open>
  What \<open>bolt.go\<close> calls and does not define is a parameter of the model:
  \<^item> \<open>Validate\<close> and \<open>RefString\<close> are \<open>ChecklistRef.Validate\<close> and \<open>ChecklistRef.String\<close> of
    package prchecklist, over the type \<open>'r\<close> of references;
  \<^item> \<open>MarshalUser\<close>, \<open>UnmarshalUser\<close>, \<open>MarshalChecks\<close>, \<open>UnmarshalChecks\<close> are
    \<open>json.Marshal\<close> and \<open>json.Unmarshal\<close> at the two record types. \<open>UnmarshalChecks\<close>
    gives the value left in the nil target \<open>checks\<close> together with the error, since
    \<open>GetChecks\<close> returns the target also when decoding failed;
  \<^item> \<open>boltOpen\<close> is \<open>bolt.Open\<close>: an error or the buckets of the opened file;
  \<^item> \<open>BeginErr\<close>, \<open>CreateErr\<close>, \<open>PutErr\<close> and \<open>CommitErr\<close> are the engine's own failures:
    beginning a transaction (the argument tells a writable one), creating a bucket of
    a given name, putting a key and value, and committing.
\<close>

record 'r collab =
  Validate :: "'r \<Rightarrow> error option"
  RefString :: "'r \<Rightarrow> string"
  MarshalUser :: "GitHubUser \<Rightarrow> error + string"
  UnmarshalUser :: "string \<Rightarrow> error + GitHubUser"
  MarshalChecks :: "Checks \<Rightarrow> error + string"
  UnmarshalChecks :: "string \<Rightarrow> Checks option \<times> error option"
  boltOpen :: "string \<Rightarrow> error + store"
  BeginErr :: "bool \<Rightarrow> error option"
  CreateErr :: "string \<Rightarrow> error option"
  PutErr :: "string \<Rightarrow> string \<Rightarrow> error option"
  CommitErr :: "error option"

subsection \<open>Transactions and buckets\<close>

text \<open>
  \<open>db.Update(fn)\<close> begins a writable transaction, runs \<open>fn\<close> on it and commits; when
  \<open>fn\<close> returns an error or the commit fails the transaction is rolled back, so the
  database keeps the state it had. A panic inside \<open>fn\<close> rolls back and unwinds.
\<close>

definition db_Update ::
  "'r collab \<Rightarrow> (store \<Rightarrow> (error option \<times> store) outcome) \<Rightarrow> store
     \<Rightarrow> (error option \<times> store) outcome" where
  "db_Update cl fn db =
     (case BeginErr cl True of
        Some err \<Rightarrow> Return (Some err, db)
      | None \<Rightarrow>
         (case fn db of
            Panic \<Rightarrow> Panic
          | Return (Some err, _) \<Rightarrow> Return (Some err, db)
          | Return (None, tx) \<Rightarrow>
             (case CommitErr cl of
                Some err \<Rightarrow> Return (Some err, db)
              | None \<Rightarrow> Return (None, tx))))"

text \<open>
  \<open>db.View(fn)\<close> runs \<open>fn\<close> on a read-only snapshot. The closures of \<open>bolt.go\<close> assign to a
  variable of the enclosing function (\<open>users\<close>, \<open>checks\<close>): the model passes its value in
  and gets the value after \<open>fn\<close> back, with the error.
\<close>

definition db_View ::
  "'r collab \<Rightarrow> (store \<Rightarrow> 's \<Rightarrow> ('s \<times> error option) outcome) \<Rightarrow> store \<Rightarrow> 's
     \<Rightarrow> ('s \<times> error option) outcome" where
  "db_View cl fn db s =
     (case BeginErr cl False of
        Some err \<Rightarrow> Return (s, Some err)
      | None \<Rightarrow> fn db s)"

text \<open>
  \<open>tx.Bucket(name)\<close> returns nil when the bucket does not exist, and \<open>Get\<close> and \<open>Put\<close>
  through a nil bucket dereference it and panic. A bucket handle is modelled by the
  bucket's name. \<open>Get\<close> returns nil for a key that is not there.
\<close>

definition bucket_Get :: "store \<Rightarrow> string \<Rightarrow> string \<Rightarrow> string option outcome" where
  "bucket_Get tx name k = (case tx name of None \<Rightarrow> Panic | Some b \<Rightarrow> Return (b k))"

definition bucket_Put ::
  "'r collab \<Rightarrow> store \<Rightarrow> string \<Rightarrow> string \<Rightarrow> string \<Rightarrow> (error option \<times> store) outcome" where
  "bucket_Put cl tx name k v =
     (case tx name of
        None \<Rightarrow> Panic
      | Some b \<Rightarrow>
         (case PutErr cl k v of
            Some err \<Rightarrow> Return (Some err, tx)
          | None \<Rightarrow> Return (None, tx(name \<mapsto> b(k \<mapsto> v)))))"

definition CreateBucketIfNotExists ::
  "'r collab \<Rightarrow> store \<Rightarrow> string \<Rightarrow> error option \<times> store" where
  "CreateBucketIfNotExists cl tx name =
     (case CreateErr cl name of
        Some err \<Rightarrow> (Some err, tx)
      | None \<Rightarrow> (None, (case tx name of None \<Rightarrow> tx(name \<mapsto> Map.empty) | Some _ \<Rightarrow> tx)))"

subsection \<open>strconv.FormatInt(i, 10)\<close>

definition digit_char :: "nat \<Rightarrow> char" where
  "digit_char d = ''0123456789'' ! d"

fun digits10 :: "nat \<Rightarrow> string" where
  "digits10 n = (if n < 10 then [digit_char n] else digits10 (n div 10) @ [digit_char (n mod 10)])"

definition FormatInt :: "int \<Rightarrow> string" where
  "FormatInt i = (if i < 0 then CHR ''-'' # digits10 (nat (- i)) else digits10 (nat i))"

subsection \<open>The operations\<close>

text \<open>
  \<open>NewBoltCore\<close>: the slice expression \<open>datasource[len("bolt:"):]\<close> panics when the string
  has fewer than five bytes; nothing compares the first five bytes with \<open>"bolt:"\<close>.
  The result is the Go pair \<open>(coreRepository, error)\<close>: an error, or the repository,
  which is the opened database.
\<close>

definition NewBoltCore :: "'r collab \<Rightarrow> string \<Rightarrow> (error + store) outcome" where
  "NewBoltCore cl datasource =
     (if length datasource < length ''bolt:'' then Panic
      else
        let path = drop (length ''bolt:'') datasource in
        (case boltOpen cl path of
           Inl err \<Rightarrow> Return (Inl err)
         | Inr db \<Rightarrow>
            (case db_Update cl
                    (\<lambda>tx. case CreateBucketIfNotExists cl tx boltBucketNameUsers of
                            (Some err, _) \<Rightarrow> Return (Some err, tx)
                          | (None, tx1) \<Rightarrow>
                             (case CreateBucketIfNotExists cl tx1 boltBucketNameChecks of
                                (Some err, _) \<Rightarrow> Return (Some err, tx1)
                              | (None, tx2) \<Rightarrow> Return (None, tx2)))
                    db of
               Panic \<Rightarrow> Panic
             | Return (Some err, _) \<Rightarrow> Return (Inl err)
             | Return (None, db') \<Rightarrow> Return (Inr db'))))"

definition AddUser :: "'r collab \<Rightarrow> store \<Rightarrow> GitHubUser \<Rightarrow> (error option \<times> store) outcome" where
  "AddUser cl db user =
     db_Update cl
       (\<lambda>tx. case MarshalUser cl user of
               Inl err \<Rightarrow> Return (Some err, tx)
             | Inr buf \<Rightarrow> bucket_Put cl tx boltBucketNameUsers (FormatInt (ID user)) buf)
       db"

text \<open>
  The loop of \<open>GetUsers\<close> over \<open>userIDs\<close>, inside the read transaction. \<open>users\<close> is the map
  of the enclosing function: an entry is stored for each identifier whose record was
  found and decoded, and the loop returns at the first one that fails.
\<close>

fun GetUsers_loop ::
  "'r collab \<Rightarrow> store \<Rightarrow> int list \<Rightarrow> (int \<rightharpoonup> GitHubUser)
     \<Rightarrow> ((int \<rightharpoonup> GitHubUser) \<times> error option) outcome" where
  "GetUsers_loop cl tx [] users = Return (users, None)"
| "GetUsers_loop cl tx (uid # uids) users =
     (case bucket_Get tx boltBucketNameUsers (FormatInt uid) of
        Panic \<Rightarrow> Panic
      | Return None \<Rightarrow> Return (users, Some (ErrNotFoundUser uid))
      | Return (Some buf) \<Rightarrow>
         (case UnmarshalUser cl buf of
            Inl err \<Rightarrow> Return (users, Some err)
          | Inr user \<Rightarrow> GetUsers_loop cl tx uids (users(uid \<mapsto> user))))"

text \<open>
  \<open>GetUsers\<close> returns \<open>users, errors.Wrap(err, "GetUsers")\<close>: the map made by \<open>make\<close> (never
  nil, so \<open>Some\<close>) as the transaction left it, also when \<open>err\<close> is not nil.
\<close>

definition GetUsers ::
  "'r collab \<Rightarrow> store \<Rightarrow> int list \<Rightarrow> ((int \<rightharpoonup> GitHubUser) option \<times> error option) outcome" where
  "GetUsers cl db userIDs =
     (case db_View cl (\<lambda>tx users. GetUsers_loop cl tx userIDs users) db Map.empty of
        Panic \<Rightarrow> Panic
      | Return (users, err) \<Rightarrow> Return (Some users, Wrap err ''GetUsers''))"

definition GetChecks ::
  "'r collab \<Rightarrow> store \<Rightarrow> 'r \<Rightarrow> (Checks option \<times> error option) outcome" where
  "GetChecks cl db clRef =
     (case Validate cl clRef of
        Some err \<Rightarrow> Return (None, Some err)
      | None \<Rightarrow>
         (case db_View cl
                 (\<lambda>tx checks.
                    case bucket_Get tx boltBucketNameChecks (RefString cl clRef) of
                      Panic \<Rightarrow> Panic
                    | Return None \<Rightarrow> Return (checks, None)
                    | Return (Some data) \<Rightarrow>
                       (case UnmarshalChecks cl data of
                          (checks', Some err) \<Rightarrow> Return (checks', Some err)
                        | (checks', None) \<Rightarrow> Return (checks', None)))
                 db None of
            Panic \<Rightarrow> Panic
          | Return (checks, err) \<Rightarrow> Return (checks, Wrap err ''GetChecks'')))"

definition AddCheck ::
  "'r collab \<Rightarrow> store \<Rightarrow> 'r \<Rightarrow> string \<Rightarrow> GitHubUser \<Rightarrow> (error option \<times> store) outcome" where
  "AddCheck cl db clRef k user =
     (case Validate cl clRef of
        Some err \<Rightarrow> Return (Some err, db)
      | None \<Rightarrow>
         db_Update cl
           (\<lambda>tx. let dbKey = RefString cl clRef in
              case bucket_Get tx boltBucketNameChecks dbKey of
                Panic \<Rightarrow> Panic
              | Return data \<Rightarrow>
                 (case (case data of None \<Rightarrow> (None, None) | Some d \<Rightarrow> UnmarshalChecks cl d) of
                    (_, Some err) \<Rightarrow> Return (Some err, tx)
                  | (checks, None) \<Rightarrow>
                     (let checks1 = (case checks of None \<Rightarrow> [] | Some c \<Rightarrow> c) in
                      case Checks_Add k user checks1 of
                        (False, _) \<Rightarrow> Return (None, tx)
                      | (True, checks2) \<Rightarrow>
                         (case MarshalChecks cl checks2 of
                            Inl err \<Rightarrow> Return (Some err, tx)
                          | Inr data' \<Rightarrow> bucket_Put cl tx boltBucketNameChecks dbKey data'))))
           db)"

definition RemoveCheck ::
  "'r collab \<Rightarrow> store \<Rightarrow> 'r \<Rightarrow> string \<Rightarrow> GitHubUser \<Rightarrow> (error option \<times> store) outcome" where
  "RemoveCheck cl db clRef k user =
     (case Validate cl clRef of
        Some err \<Rightarrow> Return (Some err, db)
      | None \<Rightarrow>
         db_Update cl
           (\<lambda>tx. let dbKey = RefString cl clRef in
              case bucket_Get tx boltBucketNameChecks dbKey of
                Panic \<Rightarrow> Panic
              | Return data \<Rightarrow>
                 (case (case data of None \<Rightarrow> (None, None) | Some d \<Rightarrow> UnmarshalChecks cl d) of
                    (_, Some err) \<Rightarrow> Return (Some err, tx)
                  | (checks, None) \<Rightarrow>
                     (let checks1 = (case checks of None \<Rightarrow> [] | Some c \<Rightarrow> c) in
                      case Checks_Remove k user checks1 of
                        (False, _) \<Rightarrow> Return (None, tx)
                      | (True, checks2) \<Rightarrow>
                         (case MarshalChecks cl checks2 of
                            Inl err \<Rightarrow> Return (Some err, tx)
                          | Inr data' \<Rightarrow> bucket_Put cl tx boltBucketNameChecks dbKey data'))))
           db)"

subsection \<open>What is stored under a key\<close>

text \<open>
  The check set that \<open>AddCheck\<close> and \<open>RemoveCheck\<close> mutate: the stored bytes of the key
  decoded, the empty check set when the key is absent or the bytes decode to nil, and
  the decoding error otherwise. \<open>stored_user\<close> is the record \<open>GetUsers\<close> finds for an
  identifier, if its bytes are there and decode.
\<close>

definition decode_at :: "'r collab \<Rightarrow> bucket \<Rightarrow> string \<Rightarrow> error + Checks" where
  "decode_at cl b k =
     (case b k of
        None \<Rightarrow> Inr []
      | Some data \<Rightarrow>
         (case UnmarshalChecks cl data of
            (_, Some err) \<Rightarrow> Inl err
          | (checks, None) \<Rightarrow> Inr (entries checks)))"

definition stored_user :: "'r collab \<Rightarrow> bucket \<Rightarrow> int \<Rightarrow> GitHubUser option" where
  "stored_user cl b uid =
     (case b (FormatInt uid) of
        None \<Rightarrow> None
      | Some buf \<Rightarrow> (case UnmarshalUser cl buf of Inl _ \<Rightarrow> None | Inr user \<Rightarrow> Some user))"


text \<open>
  A repository made by \<open>NewBoltCore\<close> has both buckets, and no operation removes one.
\<close>

definition has_buckets :: "store \<Rightarrow> bool" where
  "has_buckets db \<longleftrightarrow> db boltBucketNameUsers \<noteq> None \<and> db boltBucketNameChecks \<noteq> None"

text \<open>An error that \<open>errors.Wrap\<close> built, whatever the message.\<close>

definition is_wrapped :: "error \<Rightarrow> bool" where
  "is_wrapped e = (case e of ErrWrap _ _ \<Rightarrow> True | _ \<Rightarrow> False)"

section \<open>A concrete instance of the collaborators\<close>

text \<open>
  Modelled from the spec: \<open>prchecklist.ChecklistRef\<close> with \<open>Validate\<close> and \<open>String\<close> is not
  among the sources. The spec names an owner, a repository, a pull-request number and
  a stage marker, a validation that wants the required fields non-empty and the number
  well formed, and a canonical string such as \<open>owner/repo#number@stage\<close>.
\<close>

record ChecklistRef =
  Owner :: string
  Repo :: string
  Number :: int
  Stage :: string

definition ref_Validate :: "ChecklistRef \<Rightarrow> error option" where
  "ref_Validate r =
     (if Owner r = [] \<or> Repo r = [] \<or> Number r \<le> 0 \<or> Stage r = []
      then Some (ErrInvalidRef ''not a valid checklist reference'') else None)"

definition ref_String :: "ChecklistRef \<Rightarrow> string" where
  "ref_String r = Owner r @ ''/'' @ Repo r @ ''#'' @ FormatInt (Number r) @ ''@'' @ Stage r"

text \<open>
  A byte codec that stands for JSON in the instance: numbers in unary, strings and lists
  with their length first. Decoders return the decoded item and the rest of the input.
\<close>

definition enc_nat :: "nat \<Rightarrow> string" where
  "enc_nat n = replicate n (CHR ''1'') @ [CHR ''0'']"

fun dec_nat :: "string \<Rightarrow> (nat \<times> string) option" where
  "dec_nat [] = None"
| "dec_nat (ch # cs) =
     (if ch = CHR ''0'' then Some (0, cs)
      else if ch = CHR ''1'' then (case dec_nat cs of None \<Rightarrow> None | Some (n, r) \<Rightarrow> Some (Suc n, r))
      else None)"

definition enc_int :: "int \<Rightarrow> string" where
  "enc_int i = (if i < 0 then CHR ''-'' # enc_nat (nat (- i)) else CHR ''+'' # enc_nat (nat i))"

fun dec_int :: "string \<Rightarrow> (int \<times> string) option" where
  "dec_int [] = None"
| "dec_int (ch # cs) =
     (if ch = CHR ''-'' then (case dec_nat cs of None \<Rightarrow> None | Some (n, r) \<Rightarrow> Some (- int n, r))
      else if ch = CHR ''+'' then (case dec_nat cs of None \<Rightarrow> None | Some (n, r) \<Rightarrow> Some (int n, r))
      else None)"

definition enc_str :: "string \<Rightarrow> string" where
  "enc_str s = enc_nat (length s) @ s"

definition dec_str :: "string \<Rightarrow> (string \<times> string) option" where
  "dec_str s =
     (case dec_nat s of
        None \<Rightarrow> None
      | Some (n, r) \<Rightarrow> if length r < n then None else Some (take n r, drop n r))"

fun dec_many :: "(string \<Rightarrow> ('a \<times> string) option) \<Rightarrow> nat \<Rightarrow> string \<Rightarrow> ('a list \<times> string) option" where
  "dec_many d 0 s = Some ([], s)"
| "dec_many d (Suc n) s =
     (case d s of
        None \<Rightarrow> None
      | Some (x, r) \<Rightarrow> (case dec_many d n r of None \<Rightarrow> None | Some (xs, r') \<Rightarrow> Some (x # xs, r')))"

definition enc_list :: "('a \<Rightarrow> string) \<Rightarrow> 'a list \<Rightarrow> string" where
  "enc_list e xs = enc_nat (length xs) @ concat (map e xs)"

definition dec_list :: "(string \<Rightarrow> ('a \<times> string) option) \<Rightarrow> string \<Rightarrow> ('a list \<times> string) option" where
  "dec_list d s = (case dec_nat s of None \<Rightarrow> None | Some (n, r) \<Rightarrow> dec_many d n r)"

definition enc_item :: "string \<times> int list \<Rightarrow> string" where
  "enc_item it = enc_str (fst it) @ enc_list enc_int (snd it)"

definition dec_item :: "string \<Rightarrow> ((string \<times> int list) \<times> string) option" where
  "dec_item s =
     (case dec_str s of
        None \<Rightarrow> None
      | Some (k, r) \<Rightarrow>
         (case dec_list dec_int r of None \<Rightarrow> None | Some (us, r') \<Rightarrow> Some ((k, us), r')))"

definition enc_checks :: "Checks \<Rightarrow> error + string" where
  "enc_checks c = Inr (enc_list enc_item c)"

definition dec_checks :: "string \<Rightarrow> Checks option \<times> error option" where
  "dec_checks s =
     (if s = ''null'' then (None, None)
      else case dec_list dec_item s of
             Some (c, []) \<Rightarrow> (Some c, None)
           | _ \<Rightarrow> (None, Some (ErrJSON ''cannot decode checks'')))"

definition enc_user :: "GitHubUser \<Rightarrow> error + string" where
  "enc_user u = Inr (enc_int (ID u) @ enc_str (Login u) @ enc_str (AvatarURL u))"

definition dec_user :: "string \<Rightarrow> error + GitHubUser" where
  "dec_user s =
     (case dec_int s of
        None \<Rightarrow> Inl (ErrJSON ''cannot decode user'')
      | Some (i, r) \<Rightarrow>
         (case dec_str r of
            None \<Rightarrow> Inl (ErrJSON ''cannot decode user'')
          | Some (l, r') \<Rightarrow>
             (case dec_str r' of
                Some (a, []) \<Rightarrow> Inr \<lparr>ID = i, Login = l, AvatarURL = a\<rparr>
              | _ \<Rightarrow> Inl (ErrJSON ''cannot decode user''))))"

text \<open>
  The instance: an engine that never fails but for an empty key, which bolt's \<open>Put\<close>
  refuses, and an \<open>Open\<close> that refuses the empty path and opens a file with no bucket.
\<close>

definition demo :: "ChecklistRef collab" where
  "demo =
     \<lparr>Validate = ref_Validate, RefString = ref_String,
      MarshalUser = enc_user, UnmarshalUser = dec_user,
      MarshalChecks = enc_checks, UnmarshalChecks = dec_checks,
      boltOpen = (\<lambda>path. if path = [] then Inl (ErrBolt ''open'') else Inr Map.empty),
      BeginErr = (\<lambda>writable. None),
      CreateErr = (\<lambda>name. None),
      PutErr = (\<lambda>k v. if k = [] then Some (ErrBolt ''key required'') else None),
      CommitErr = None\<rparr>"

definition alice :: GitHubUser where
  "alice = \<lparr>ID = 1, Login = ''alice'', AvatarURL = ''a.png''\<rparr>"


definition good_ref :: ChecklistRef where
  "good_ref = \<lparr>Owner = ''o'', Repo = ''r'', Number = 7, Stage = ''qa''\<rparr>"

definition bad_ref :: ChecklistRef where
  "bad_ref = \<lparr>Owner = ''o'', Repo = [], Number = 7, Stage = ''qa''\<rparr>"

text \<open>
  Databases: one as \<open>NewBoltCore\<close> leaves a new file; one that holds the users 1 and 3
  (and no user 2) and an unrelated entry in \<open>checks\<close>; one whose entries do not decode;
  and the new one after \<open>alice\<close> checked \<open>item\<close> of \<open>good_ref\<close>, and after the check
  was removed again.
\<close>

definition empty_db :: store where
  "empty_db = [boltBucketNameUsers \<mapsto> Map.empty, boltBucketNameChecks \<mapsto> Map.empty]"

definition some_users :: bucket where
  "some_users =
     [''1'' \<mapsto> enc_int 1 @ enc_str ''alice'' @ enc_str ''a.png'',
      ''3'' \<mapsto> enc_int 3 @ enc_str ''carol'' @ enc_str ''c.png'']"

definition some_db :: store where
  "some_db = [boltBucketNameUsers \<mapsto> some_users, boltBucketNameChecks \<mapsto> [''other'' \<mapsto> ''0'']]"

definition corrupt_db :: store where
  "corrupt_db =
     [boltBucketNameUsers \<mapsto> [''1'' \<mapsto> ''garbage''],
      boltBucketNameChecks \<mapsto> [''o/r#7@qa'' \<mapsto> ''garbage'']]"



section \<open>Facts about the instance\<close>

lemma demo_sel:
  "Validate demo = ref_Validate" "RefString demo = ref_String"
  "MarshalUser demo = enc_user" "UnmarshalUser demo = dec_user"
  "MarshalChecks demo = enc_checks" "UnmarshalChecks demo = dec_checks"
  "boltOpen demo = (\<lambda>path. if path = [] then Inl (ErrBolt ''open'') else Inr Map.empty)"
  "BeginErr demo = (\<lambda>writable. None)" "CreateErr demo = (\<lambda>name. None)"
  "PutErr demo = (\<lambda>k v. if k = [] then Some (ErrBolt ''key required'') else None)"
  "CommitErr demo = None"
  by (simp_all add: demo_def)

lemmas bucket_names = boltBucketNameUsers_def boltBucketNameChecks_def

lemma good_ref_facts:
  "ref_Validate good_ref = None" "ref_String good_ref = ''o/r#7@qa''"
  by (simp_all add: ref_String_def ref_Validate_def good_ref_def FormatInt_def digit_char_def)

lemma FormatInt_123: "FormatInt 1 = ''1''" "FormatInt 2 = ''2''" "FormatInt 3 = ''3''"
  by (simp_all add: FormatInt_def digit_char_def)

text \<open>The codec of the instance decodes what it encoded.\<close>

lemma dec_nat_enc: "dec_nat (enc_nat n @ r) = Some (n, r)"
  by (induction n) (simp_all add: enc_nat_def)

lemma dec_int_enc: "dec_int (enc_int i @ r) = Some (i, r)"
  by (simp add: enc_int_def dec_nat_enc)

lemma dec_str_enc: "dec_str (enc_str s @ r) = Some (s, r)"
  by (simp add: enc_str_def dec_str_def dec_nat_enc)






lemma dec_user_enc:
  "dec_user (enc_int i @ enc_str l @ enc_str a) = Inr \<lparr>ID = i, Login = l, AvatarURL = a\<rparr>"
  using dec_str_enc [of a "[]"] by (simp add: dec_user_def dec_int_enc dec_str_enc)


text \<open>Calls on the databases of the instance, evaluated.\<close>

lemma some_db_buckets:
  "some_db boltBucketNameUsers = Some some_users"
  "some_db boltBucketNameChecks = Some [''other'' \<mapsto> ''0'']"
  by (simp_all add: some_db_def bucket_names)

lemma stored_user_alice: "stored_user demo some_users 1 = Some alice"
  by (simp add: stored_user_def some_users_def FormatInt_123 demo_sel dec_user_enc alice_def)

lemma demo_GetUsers_123:
  "GetUsers demo some_db [1, 2, 3] =
     Return (Some [1 \<mapsto> alice], Some (ErrWrap (ErrNotFoundUser 2) ''GetUsers''))"
  by (simp add: GetUsers_def db_View_def demo_sel bucket_Get_def some_db_buckets some_users_def
      FormatInt_123 dec_user_enc alice_def Wrap_def)

lemma corrupt_db_facts:
  "corrupt_db boltBucketNameChecks = Some [''o/r#7@qa'' \<mapsto> ''garbage'']"
  "dec_checks ''garbage'' = (None, Some (ErrJSON ''cannot decode checks''))"
  by (simp_all add: corrupt_db_def bucket_names dec_checks_def dec_list_def)

lemma demo_AddCheck_corrupt:
  "AddCheck demo corrupt_db good_ref ''item'' alice =
     Return (Some (ErrJSON ''cannot decode checks''), corrupt_db)"
  by (simp add: AddCheck_def demo_sel good_ref_facts db_Update_def bucket_Get_def corrupt_db_facts)

lemma demo_RemoveCheck_corrupt:
  "RemoveCheck demo corrupt_db good_ref ''item'' alice =
     Return (Some (ErrJSON ''cannot decode checks''), corrupt_db)"
  by (simp add: RemoveCheck_def demo_sel good_ref_facts db_Update_def bucket_Get_def corrupt_db_facts)

lemma demo_GetChecks_corrupt:
  "GetChecks demo corrupt_db good_ref =
     Return (None, Some (ErrWrap (ErrJSON ''cannot decode checks'') ''GetChecks''))"
  by (simp add: GetChecks_def demo_sel good_ref_facts db_View_def bucket_Get_def corrupt_db_facts
      Wrap_def)




section \<open>The operations, case by case\<close>


lemma Wrap_Some: "Wrap err msg = Some e \<Longrightarrow> \<exists>e'. err = Some e' \<and> e = ErrWrap e' msg"
  by (cases err) (auto simp: Wrap_def)

lemma Wrap_None: "Wrap err msg = None \<Longrightarrow> err = None"
  by (cases err) (auto simp: Wrap_def)

text \<open>
  Once the reference is valid, the transaction has begun and the bucket is there, a
  write operation is decided by what is stored under the key, then by the encoder,
  the put and the commit, in this order.
\<close>

lemma AddCheck_unfold:
  assumes "Validate cl R = None" and "BeginErr cl True = None"
    and "db boltBucketNameChecks = Some b"
  shows "AddCheck cl db R K U =
    (case decode_at cl b (RefString cl R) of
       Inl e \<Rightarrow> Return (Some e, db)
     | Inr c \<Rightarrow>
        (if ID U \<in> set (checked_by c K)
         then (case CommitErr cl of Some e \<Rightarrow> Return (Some e, db) | None \<Rightarrow> Return (None, db))
         else (case MarshalChecks cl (AList.update K (checked_by c K @ [ID U]) c) of
                 Inl e \<Rightarrow> Return (Some e, db)
               | Inr data \<Rightarrow>
                  (case PutErr cl (RefString cl R) data of
                     Some e \<Rightarrow> Return (Some e, db)
                   | None \<Rightarrow>
                      (case CommitErr cl of
                         Some e \<Rightarrow> Return (Some e, db)
                       | None \<Rightarrow> Return (None, db(boltBucketNameChecks \<mapsto> b(RefString cl R \<mapsto> data))))))))"
proof (cases "b (RefString cl R)")
  case None
  with assms show ?thesis
    by (simp add: AddCheck_def db_Update_def bucket_Get_def bucket_Put_def decode_at_def
        Checks_Add_def entries_def split: option.splits sum.splits)
next
  case (Some data)
  obtain checks err where u: "UnmarshalChecks cl data = (checks, err)"
    by (cases "UnmarshalChecks cl data")
  show ?thesis
  proof (cases err)
    case None
    with assms Some u show ?thesis
      by (cases checks)
        (simp_all add: AddCheck_def db_Update_def bucket_Get_def bucket_Put_def decode_at_def
          Checks_Add_def entries_def split: option.splits sum.splits)
  next
    case (Some e)
    with assms \<open>b (RefString cl R) = Some data\<close> u show ?thesis
      by (simp add: AddCheck_def db_Update_def bucket_Get_def decode_at_def)
  qed
qed

lemma RemoveCheck_unfold:
  assumes "Validate cl R = None" and "BeginErr cl True = None"
    and "db boltBucketNameChecks = Some b"
  shows "RemoveCheck cl db R K U =
    (case decode_at cl b (RefString cl R) of
       Inl e \<Rightarrow> Return (Some e, db)
     | Inr c \<Rightarrow>
        (if ID U \<notin> set (checked_by c K)
         then (case CommitErr cl of Some e \<Rightarrow> Return (Some e, db) | None \<Rightarrow> Return (None, db))
         else (case MarshalChecks cl (AList.update K (removeAll (ID U) (checked_by c K)) c) of
                 Inl e \<Rightarrow> Return (Some e, db)
               | Inr data \<Rightarrow>
                  (case PutErr cl (RefString cl R) data of
                     Some e \<Rightarrow> Return (Some e, db)
                   | None \<Rightarrow>
                      (case CommitErr cl of
                         Some e \<Rightarrow> Return (Some e, db)
                       | None \<Rightarrow> Return (None, db(boltBucketNameChecks \<mapsto> b(RefString cl R \<mapsto> data))))))))"
proof (cases "b (RefString cl R)")
  case None
  with assms show ?thesis
    by (simp add: RemoveCheck_def db_Update_def bucket_Get_def bucket_Put_def decode_at_def
        Checks_Remove_def entries_def split: option.splits sum.splits)
next
  case (Some data)
  obtain checks err where u: "UnmarshalChecks cl data = (checks, err)"
    by (cases "UnmarshalChecks cl data")
  show ?thesis
  proof (cases err)
    case None
    with assms Some u show ?thesis
      by (cases checks)
        (simp_all add: RemoveCheck_def db_Update_def bucket_Get_def bucket_Put_def decode_at_def
          Checks_Remove_def entries_def split: option.splits sum.splits)
  next
    case (Some e)
    with assms \<open>b (RefString cl R) = Some data\<close> u show ?thesis
      by (simp add: RemoveCheck_def db_Update_def bucket_Get_def decode_at_def)
  qed
qed

lemma GetChecks_unfold:
  assumes "Validate cl R = None" and "BeginErr cl False = None"
    and "db boltBucketNameChecks = Some b"
  shows "GetChecks cl db R =
    (case b (RefString cl R) of
       None \<Rightarrow> Return (None, None)
     | Some data \<Rightarrow> Return (fst (UnmarshalChecks cl data), Wrap (snd (UnmarshalChecks cl data)) ''GetChecks''))"
  using assms
  by (simp add: GetChecks_def db_View_def bucket_Get_def Wrap_def
      split: option.splits sum.splits prod.splits)


lemma AddCheck_ok_pre:
  assumes "AddCheck cl db R K U = Return (None, db1)"
  shows "Validate cl R = None \<and> BeginErr cl True = None \<and> CommitErr cl = None \<and>
         (\<exists>b. db boltBucketNameChecks = Some b)"
proof -
  have v: "Validate cl R = None"
    using assms by (cases "Validate cl R") (simp_all add: AddCheck_def)
  have g: "BeginErr cl True = None"
    using assms v by (cases "BeginErr cl True") (simp_all add: AddCheck_def db_Update_def)
  have b: "\<exists>b. db boltBucketNameChecks = Some b"
    using assms v g
    by (cases "db boltBucketNameChecks") (simp_all add: AddCheck_def db_Update_def bucket_Get_def)
  then obtain b where b': "db boltBucketNameChecks = Some b" ..
  have "CommitErr cl = None"
    using assms unfolding AddCheck_unfold [of cl R db b, OF v g b']
    by (cases "CommitErr cl") (simp_all split: sum.splits if_splits option.splits)
  with v g b show ?thesis by simp
qed

lemma RemoveCheck_ok_pre:
  assumes "RemoveCheck cl db R K U = Return (None, db1)"
  shows "Validate cl R = None \<and> BeginErr cl True = None \<and> CommitErr cl = None \<and>
         (\<exists>b. db boltBucketNameChecks = Some b)"
proof -
  have v: "Validate cl R = None"
    using assms by (cases "Validate cl R") (simp_all add: RemoveCheck_def)
  have g: "BeginErr cl True = None"
    using assms v by (cases "BeginErr cl True") (simp_all add: RemoveCheck_def db_Update_def)
  have b: "\<exists>b. db boltBucketNameChecks = Some b"
    using assms v g
    by (cases "db boltBucketNameChecks") (simp_all add: RemoveCheck_def db_Update_def bucket_Get_def)
  then obtain b where b': "db boltBucketNameChecks = Some b" ..
  have "CommitErr cl = None"
    using assms unfolding RemoveCheck_unfold [of cl R db b, OF v g b']
    by (cases "CommitErr cl") (simp_all split: sum.splits if_splits option.splits)
  with v g b show ?thesis by simp
qed



text \<open>The loop of \<open>GetUsers\<close>: through identifiers that are found, and at one that is not.\<close>

lemma GetUsers_loop_prefix:
  assumes "tx boltBucketNameUsers = Some b" and "\<forall>i\<in>set pre. stored_user cl b i \<noteq> None"
  shows "GetUsers_loop cl tx (pre @ rest) users =
           GetUsers_loop cl tx rest (\<lambda>i. if i \<in> set pre then stored_user cl b i else users i)"
  using assms(2)
proof (induction pre arbitrary: users)
  case Nil
  show ?case by simp
next
  case (Cons a pre)
  from Cons.prems obtain u where u: "stored_user cl b a = Some u" by auto
  then obtain buf where buf: "b (FormatInt a) = Some buf" "UnmarshalUser cl buf = Inr u"
    by (auto simp: stored_user_def split: option.splits sum.splits)
  have "GetUsers_loop cl tx ((a # pre) @ rest) users =
          GetUsers_loop cl tx (pre @ rest) (users(a \<mapsto> u))"
    using assms(1) buf by (simp add: bucket_Get_def)
  also have "\<dots> = GetUsers_loop cl tx rest
      (\<lambda>i. if i \<in> set pre then stored_user cl b i else (users(a \<mapsto> u)) i)"
    using Cons.prems by (intro Cons.IH) simp
  also have "(\<lambda>i. if i \<in> set pre then stored_user cl b i else (users(a \<mapsto> u)) i) =
      (\<lambda>i. if i \<in> set (a # pre) then stored_user cl b i else users i)"
    using u by (auto simp: fun_eq_iff)
  finally show ?case .
qed

lemma GetUsers_loop_missing:
  assumes "tx boltBucketNameUsers = Some b" and "b (FormatInt uid) = None" and "uid \<in> set ids"
  shows "\<exists>m e. GetUsers_loop cl tx ids users = Return (m, Some e)"
  using assms(3)
proof (induction ids arbitrary: users)
  case Nil
  then show ?case by simp
next
  case (Cons a ids)
  show ?case
  proof (cases "b (FormatInt a)")
    case None
    with assms(1) show ?thesis by (simp add: bucket_Get_def)
  next
    case (Some buf)
    with assms(2) have "a \<noteq> uid" by auto
    with Cons.prems have "uid \<in> set ids" by simp
    from Cons.IH [OF this] assms(1) Some show ?thesis
      by (cases "UnmarshalUser cl buf") (simp_all add: bucket_Get_def)
  qed
qed

lemma GetUsers_loop_success:
  assumes "tx boltBucketNameUsers = Some b"
    and "GetUsers_loop cl tx ids users = Return (m, None)"
  shows "(\<forall>i\<in>set ids. stored_user cl b i \<noteq> None) \<and>
         m = (\<lambda>i. if i \<in> set ids then stored_user cl b i else users i)"
  using assms(2)
proof (induction ids arbitrary: users)
  case Nil
  then show ?case by simp
next
  case (Cons a ids)
  from Cons.prems assms(1) obtain buf u where
    buf: "b (FormatInt a) = Some buf" "UnmarshalUser cl buf = Inr u" and
    r: "GetUsers_loop cl tx ids (users(a \<mapsto> u)) = Return (m, None)"
    by (auto simp: bucket_Get_def split: option.splits sum.splits)
  from buf have s: "stored_user cl b a = Some u"
    by (simp add: stored_user_def)
  from Cons.IH [OF r] s show ?case
    by (auto simp: fun_eq_iff)
qed

text \<open>What an error and what success of each operation tell about its steps.\<close>

lemma GetUsers_error:
  assumes "GetUsers cl db ids = Return (m, Some e)"
  shows "\<exists>e'. e = ErrWrap e' ''GetUsers''"
  using assms
  by (auto simp: GetUsers_def split: outcome.splits prod.splits dest: Wrap_Some)

lemma GetUsers_success:
  assumes "GetUsers cl db ids = Return (m, None)"
  shows "BeginErr cl False = None \<and>
     (\<forall>b. db boltBucketNameUsers = Some b \<longrightarrow>
        (\<forall>i\<in>set ids. stored_user cl b i \<noteq> None) \<and>
        m = Some (\<lambda>i. if i \<in> set ids then stored_user cl b i else None))"
proof -
  have g: "BeginErr cl False = None"
    using assms
    by (cases "BeginErr cl False") (simp_all add: GetUsers_def db_View_def Wrap_def)
  from assms g obtain m' where
    m: "GetUsers_loop cl db ids Map.empty = Return (m', None)" "m = Some m'"
    by (auto simp: GetUsers_def db_View_def split: outcome.splits prod.splits dest!: Wrap_None)
  show ?thesis
    using g m GetUsers_loop_success [where tx = db and cl = cl and ids = ids
        and users = Map.empty and m = m']
    by auto
qed

lemma GetChecks_error:
  assumes "GetChecks cl db R = Return (c, Some e)"
  shows "Validate cl R = Some e \<or> (Validate cl R = None \<and> (\<exists>e'. e = ErrWrap e' ''GetChecks''))"
  using assms
  by (cases "Validate cl R")
    (auto simp: GetChecks_def split: outcome.splits prod.splits dest: Wrap_Some)

lemma GetChecks_success:
  assumes "GetChecks cl db R = Return (checks, None)"
  shows "Validate cl R = None \<and> BeginErr cl False = None \<and>
     (\<exists>b. db boltBucketNameChecks = Some b \<and>
        decode_at cl b (RefString cl R) = Inr (entries checks))"
proof -
  have v: "Validate cl R = None"
    using assms by (cases "Validate cl R") (simp_all add: GetChecks_def)
  have g: "BeginErr cl False = None"
    using assms v
    by (cases "BeginErr cl False") (simp_all add: GetChecks_def db_View_def Wrap_def)
  obtain b where b: "db boltBucketNameChecks = Some b"
    using assms v g
    by (cases "db boltBucketNameChecks") (simp_all add: GetChecks_def db_View_def bucket_Get_def)
  have "decode_at cl b (RefString cl R) = Inr (entries checks)"
    using assms unfolding GetChecks_unfold [of cl R db b, OF v g b]
    by (auto simp: decode_at_def entries_def split: option.splits prod.splits dest!: Wrap_None)
  with v g b show ?thesis by blast
qed

lemma AddUser_error:
  assumes "AddUser cl db user = Return (Some e, db')"
  shows "db' = db \<and>
     (BeginErr cl True = Some e \<or> MarshalUser cl user = Inl e \<or>
      (\<exists>buf. MarshalUser cl user = Inr buf \<and> PutErr cl (FormatInt (ID user)) buf = Some e) \<or>
      CommitErr cl = Some e)"
  using assms
  by (cases "BeginErr cl True"; cases "MarshalUser cl user"; cases "db boltBucketNameUsers";
      cases "CommitErr cl")
    (auto simp: AddUser_def db_Update_def bucket_Put_def split: option.splits)

lemma AddUser_success:
  assumes "AddUser cl db user = Return (None, db')"
  shows "BeginErr cl True = None \<and> CommitErr cl = None \<and>
     (\<exists>buf b. MarshalUser cl user = Inr buf \<and> PutErr cl (FormatInt (ID user)) buf = None \<and>
        db boltBucketNameUsers = Some b \<and>
        db' = db(boltBucketNameUsers \<mapsto> b(FormatInt (ID user) \<mapsto> buf)))"
  using assms
  by (cases "BeginErr cl True"; cases "MarshalUser cl user"; cases "db boltBucketNameUsers";
      cases "CommitErr cl")
    (auto simp: AddUser_def db_Update_def bucket_Put_def split: option.splits)

lemma AddCheck_error:
  assumes "AddCheck cl db R K U = Return (Some e, db')"
  shows "db' = db \<and>
     (Validate cl R = Some e \<or> BeginErr cl True = Some e \<or> CommitErr cl = Some e \<or>
      (\<exists>b. db boltBucketNameChecks = Some b \<and>
         (decode_at cl b (RefString cl R) = Inl e \<or>
          (\<exists>c. decode_at cl b (RefString cl R) = Inr c \<and>
             (MarshalChecks cl (snd (Checks_Add K U c)) = Inl e \<or>
              (\<exists>data. MarshalChecks cl (snd (Checks_Add K U c)) = Inr data \<and>
                 PutErr cl (RefString cl R) data = Some e))))))"
proof (cases "Validate cl R")
  case (Some a)
  with assms show ?thesis by (simp add: AddCheck_def)
next
  case None
  show ?thesis
  proof (cases "BeginErr cl True")
    case (Some a)
    with assms None show ?thesis by (simp add: AddCheck_def db_Update_def)
  next
    case g: None
    show ?thesis
    proof (cases "db boltBucketNameChecks")
      case None
      with assms \<open>Validate cl R = None\<close> g show ?thesis
        by (simp add: AddCheck_def db_Update_def bucket_Get_def)
    next
      case (Some b)
      from assms show ?thesis
        unfolding AddCheck_unfold [of cl R db b, OF None g Some]
        by (auto simp: Some Checks_Add_def split: sum.splits if_splits option.splits)
    qed
  qed
qed

lemma AddCheck_success:
  assumes "AddCheck cl db R K U = Return (None, db')"
  shows "Validate cl R = None \<and> BeginErr cl True = None \<and> CommitErr cl = None \<and>
     (\<exists>b c. db boltBucketNameChecks = Some b \<and> decode_at cl b (RefString cl R) = Inr c \<and>
        (if fst (Checks_Add K U c) then
           (\<exists>data. MarshalChecks cl (snd (Checks_Add K U c)) = Inr data \<and>
              PutErr cl (RefString cl R) data = None \<and>
              db' = db(boltBucketNameChecks \<mapsto> b(RefString cl R \<mapsto> data)))
         else db' = db))"
proof -
  from AddCheck_ok_pre [OF assms] obtain b where
    v: "Validate cl R = None" and g: "BeginErr cl True = None" and k: "CommitErr cl = None" and
    b: "db boltBucketNameChecks = Some b"
    by blast
  from assms have "\<exists>c. decode_at cl b (RefString cl R) = Inr c \<and>
        (if fst (Checks_Add K U c) then
           (\<exists>data. MarshalChecks cl (snd (Checks_Add K U c)) = Inr data \<and>
              PutErr cl (RefString cl R) data = None \<and>
              db' = db(boltBucketNameChecks \<mapsto> b(RefString cl R \<mapsto> data)))
         else db' = db)"
    unfolding AddCheck_unfold [of cl R db b, OF v g b]
    by (auto simp: Checks_Add_def k split: sum.splits if_splits option.splits)
  with v g k b show ?thesis by blast
qed

lemma RemoveCheck_error:
  assumes "RemoveCheck cl db R K U = Return (Some e, db')"
  shows "db' = db \<and>
     (Validate cl R = Some e \<or> BeginErr cl True = Some e \<or> CommitErr cl = Some e \<or>
      (\<exists>b. db boltBucketNameChecks = Some b \<and>
         (decode_at cl b (RefString cl R) = Inl e \<or>
          (\<exists>c. decode_at cl b (RefString cl R) = Inr c \<and>
             (MarshalChecks cl (snd (Checks_Remove K U c)) = Inl e \<or>
              (\<exists>data. MarshalChecks cl (snd (Checks_Remove K U c)) = Inr data \<and>
                 PutErr cl (RefString cl R) data = Some e))))))"
proof (cases "Validate cl R")
  case (Some a)
  with assms show ?thesis by (simp add: RemoveCheck_def)
next
  case None
  show ?thesis
  proof (cases "BeginErr cl True")
    case (Some a)
    with assms None show ?thesis by (simp add: RemoveCheck_def db_Update_def)
  next
    case g: None
    show ?thesis
    proof (cases "db boltBucketNameChecks")
      case None
      with assms \<open>Validate cl R = None\<close> g show ?thesis
        by (simp add: RemoveCheck_def db_Update_def bucket_Get_def)
    next
      case (Some b)
      from assms show ?thesis
        unfolding RemoveCheck_unfold [of cl R db b, OF None g Some]
        by (auto simp: Some Checks_Remove_def split: sum.splits if_splits option.splits)
    qed
  qed
qed

lemma RemoveCheck_success:
  assumes "RemoveCheck cl db R K U = Return (None, db')"
  shows "Validate cl R = None \<and> BeginErr cl True = None \<and> CommitErr cl = None \<and>
     (\<exists>b c. db boltBucketNameChecks = Some b \<and> decode_at cl b (RefString cl R) = Inr c \<and>
        (if fst (Checks_Remove K U c) then
           (\<exists>data. MarshalChecks cl (snd (Checks_Remove K U c)) = Inr data \<and>
              PutErr cl (RefString cl R) data = None \<and>
              db' = db(boltBucketNameChecks \<mapsto> b(RefString cl R \<mapsto> data)))
         else db' = db))"
proof -
  from RemoveCheck_ok_pre [OF assms] obtain b where
    v: "Validate cl R = None" and g: "BeginErr cl True = None" and k: "CommitErr cl = None" and
    b: "db boltBucketNameChecks = Some b"
    by blast
  from assms have "\<exists>c. decode_at cl b (RefString cl R) = Inr c \<and>
        (if fst (Checks_Remove K U c) then
           (\<exists>data. MarshalChecks cl (snd (Checks_Remove K U c)) = Inr data \<and>
              PutErr cl (RefString cl R) data = None \<and>
              db' = db(boltBucketNameChecks \<mapsto> b(RefString cl R \<mapsto> data)))
         else db' = db)"
    unfolding RemoveCheck_unfold [of cl R db b, OF v g b]
    by (auto simp: Checks_Remove_def k split: sum.splits if_splits option.splits)
  with v g k b show ?thesis by blast
qed

section \<open>The buckets of a repository\<close>

text \<open>
  \<open>NewBoltCore\<close> returns a database that has both buckets, the write operations keep
  them, and on such a database no operation panics: the nil bucket of \<open>tx.Bucket\<close>
  does not occur in a repository.
\<close>

lemma NewBoltCore_buckets:
  assumes "NewBoltCore cl datasource = Return (Inr db)"
  shows "has_buckets db"
  using assms
  by (auto simp: NewBoltCore_def db_Update_def CreateBucketIfNotExists_def has_buckets_def
      bucket_names Let_def
      split: if_splits sum.splits option.splits prod.splits)

lemma AddUser_buckets:
  assumes "AddUser cl db user = Return (e, db')" and "has_buckets db"
  shows "has_buckets db'"
  using assms AddUser_error [of cl db user _ db'] AddUser_success [of cl db user db']
  by (cases e) (auto simp: has_buckets_def)

lemma AddCheck_buckets:
  assumes "AddCheck cl db R K U = Return (e, db')" and "has_buckets db"
  shows "has_buckets db'"
  using assms AddCheck_error [of cl db R K U _ db'] AddCheck_success [of cl db R K U db']
  by (cases e) (auto simp: has_buckets_def split: if_splits)

lemma RemoveCheck_buckets:
  assumes "RemoveCheck cl db R K U = Return (e, db')" and "has_buckets db"
  shows "has_buckets db'"
  using assms RemoveCheck_error [of cl db R K U _ db'] RemoveCheck_success [of cl db R K U db']
  by (cases e) (auto simp: has_buckets_def split: if_splits)

lemma GetUsers_loop_no_panic:
  "tx boltBucketNameUsers \<noteq> None \<Longrightarrow> GetUsers_loop cl tx ids users \<noteq> Panic"
  by (induction ids arbitrary: users) (auto simp: bucket_Get_def split: option.splits sum.splits)

lemma no_panic:
  assumes "has_buckets db"
  shows "AddUser cl db user \<noteq> Panic" "GetUsers cl db ids \<noteq> Panic" "GetChecks cl db R \<noteq> Panic"
    "AddCheck cl db R K U \<noteq> Panic" "RemoveCheck cl db R K U \<noteq> Panic"
proof -
  from assms obtain ub cb where
    b: "db boltBucketNameUsers = Some ub" "db boltBucketNameChecks = Some cb"
    by (auto simp: has_buckets_def)
  show "AddUser cl db user \<noteq> Panic"
    using b by (simp add: AddUser_def db_Update_def bucket_Put_def split: option.splits sum.splits)
  show "GetUsers cl db ids \<noteq> Panic"
    using b GetUsers_loop_no_panic [of db cl ids Map.empty]
    by (auto simp: GetUsers_def db_View_def split: option.splits outcome.splits)
  show "GetChecks cl db R \<noteq> Panic"
    using b
    by (auto simp: GetChecks_def db_View_def bucket_Get_def split: option.splits prod.splits)
  show "AddCheck cl db R K U \<noteq> Panic"
  proof (cases "Validate cl R")
    case (Some e)
    then show ?thesis by (simp add: AddCheck_def)
  next
    case None
    show ?thesis
    proof (cases "BeginErr cl True")
      case (Some e)
      with None show ?thesis by (simp add: AddCheck_def db_Update_def)
    next
      case g: None
      show ?thesis
        by (simp add: AddCheck_unfold [of cl R db cb, OF None g b(2)] split: sum.splits option.splits)
    qed
  qed
  show "RemoveCheck cl db R K U \<noteq> Panic"
  proof (cases "Validate cl R")
    case (Some e)
    then show ?thesis by (simp add: RemoveCheck_def)
  next
    case None
    show ?thesis
    proof (cases "BeginErr cl True")
      case (Some e)
      with None show ?thesis by (simp add: RemoveCheck_def db_Update_def)
    next
      case g: None
      show ?thesis
        by (simp add: RemoveCheck_unfold [of cl R db cb, OF None g b(2)] split: sum.splits option.splits)
    qed
  qed
qed

section \<open>Opening the repository\<close>

text \<open>
  C8. A datasource of fewer than five bytes makes \<open>NewBoltCore\<close> panic on the slice
  expression instead of returning an error. With five bytes or more the call does not
  panic, the first five bytes are dropped without being compared with \<open>bolt:\<close> (the
  call behaves as it does on \<open>bolt:\<close> followed by the same rest), and the rest is the
  path handed to \<open>bolt.Open\<close>, whose error is returned as it is.
\<close>

theorem NewBoltCore_prefix:
  "(length datasource < 5 \<longrightarrow> NewBoltCore cl datasource = Panic) \<and>
   (5 \<le> length datasource \<longrightarrow> NewBoltCore cl datasource \<noteq> Panic) \<and>
   (length p = 5 \<longrightarrow> NewBoltCore cl (p @ path) = NewBoltCore cl (''bolt:'' @ path)) \<and>
   (length p = 5 \<longrightarrow> boltOpen cl path = Inl err \<longrightarrow> NewBoltCore cl (p @ path) = Return (Inl err))"
  by (simp add: NewBoltCore_def db_Update_def split: sum.splits option.splits prod.splits)

theorem NewBoltCore_prefix_witness:
  "NewBoltCore demo ''bolt'' = Panic \<and>
   NewBoltCore demo ''abcde/tmp/x.db'' \<noteq> Panic \<and>
   NewBoltCore demo ''abcde/tmp/x.db'' = NewBoltCore demo ''bolt:/tmp/x.db'' \<and>
   NewBoltCore demo ''abcde/tmp/x.db'' = Return (Inr empty_db) \<and>
   NewBoltCore demo ''abcde'' = Return (Inl (ErrBolt ''open''))"
proof -
  have o: "boltOpen demo [] = Inl (ErrBolt ''open'')"
    by (simp add: demo_sel)
  have d: "NewBoltCore demo ''bolt:/tmp/x.db'' = Return (Inr empty_db)"
    by (simp add: NewBoltCore_def demo_sel bucket_names empty_db_def db_Update_def
        CreateBucketIfNotExists_def)
  from NewBoltCore_prefix [of "''bolt''" demo "''abcde''" "''/tmp/x.db''"]
    NewBoltCore_prefix [of "''abcde/tmp/x.db''" demo "''abcde''" "[]" "ErrBolt ''open''"] o d
  show ?thesis by auto
qed

section \<open>Users\<close>

text \<open>
  C9. \<open>AddUser\<close> looks at the identifier only to form the key: whatever the user is,
  identifier 0 and negative identifiers included, when the transaction begins, the
  record encodes, the put is accepted and the commit succeeds, the call returns no
  error and the encoded record is stored in \<open>users\<close> under the decimal string of the
  identifier.
\<close>

theorem AddUser_no_validation:
  assumes "BeginErr cl True = None"
    and "MarshalUser cl user = Inr buf"
    and "db boltBucketNameUsers = Some b"
    and "PutErr cl (FormatInt (ID user)) buf = None"
    and "CommitErr cl = None"
  shows "AddUser cl db user =
           Return (None, db(boltBucketNameUsers \<mapsto> b(FormatInt (ID user) \<mapsto> buf)))"
  using assms by (simp add: AddUser_def db_Update_def bucket_Put_def)

theorem AddUser_no_validation_witness:
  "AddUser demo empty_db \<lparr>ID = 0, Login = ''z'', AvatarURL = []\<rparr> =
     Return (None, empty_db(''users'' \<mapsto> [''0'' \<mapsto> ''+0'' @ ''10z'' @ ''0'']))
   \<and> AddUser demo empty_db \<lparr>ID = - 12, Login = ''n'', AvatarURL = []\<rparr> =
     Return (None, empty_db(''users'' \<mapsto> [''-12'' \<mapsto> ''-1111111111110'' @ ''10n'' @ ''0'']))"
proof -
  have z: "FormatInt 0 = ''0''" "FormatInt (- 12) = ''-12''"
    by (simp_all add: FormatInt_def digit_char_def)
  have e: "enc_user \<lparr>ID = 0, Login = ''z'', AvatarURL = []\<rparr> = Inr (''+0'' @ ''10z'' @ ''0'')"
    "enc_user \<lparr>ID = - 12, Login = ''n'', AvatarURL = []\<rparr> =
       Inr (''-1111111111110'' @ ''10n'' @ ''0'')"
    by (simp_all add: enc_user_def enc_int_def enc_str_def enc_nat_def eval_nat_numeral)
  show ?thesis
    using AddUser_no_validation [of demo "\<lparr>ID = 0, Login = ''z'', AvatarURL = []\<rparr>" _ empty_db Map.empty]
      AddUser_no_validation [of demo "\<lparr>ID = - 12, Login = ''n'', AvatarURL = []\<rparr>" _ empty_db Map.empty]
    by (simp add: z e demo_sel empty_db_def bucket_names)
qed

text \<open>
  C10. \<open>GetUsers\<close> on the empty list of identifiers returns the empty map made by
  \<open>make\<close>, not nil, whatever the database holds; the only error it can return there is
  the engine's refusal to begin the read transaction, so with an engine that begins
  the transaction there is no error.
\<close>

theorem GetUsers_empty:
  "GetUsers cl db [] = Return (Some Map.empty, Wrap (BeginErr cl False) ''GetUsers'') \<and>
   (BeginErr cl False = None \<longrightarrow> GetUsers cl db [] = Return (Some Map.empty, None))"
  by (simp add: GetUsers_def db_View_def Wrap_def split: option.splits)

theorem GetUsers_empty_witness:
  "GetUsers demo Map.empty [] = Return (Some Map.empty, None)"
proof -
  have "BeginErr demo False = None"
    by (simp add: demo_sel)
  with GetUsers_empty [of demo Map.empty] show ?thesis by blast
qed

text \<open>
  C1 (as amended). When the \<open>users\<close> bucket has no record for one of the requested
  identifiers, \<open>GetUsers\<close> returns an error wrapped as \<open>GetUsers\<close>, whatever else is
  stored. When the read transaction begins and every identifier before the missing one
  has a record that decodes, that error is the not-found error naming the missing
  identifier, and the map returned with it is not empty in general: it holds exactly
  the records of the identifiers before the missing one.
\<close>

theorem GetUsers_missing:
  assumes "db boltBucketNameUsers = Some b" and "b (FormatInt uid) = None"
  shows "(\<exists>m e. GetUsers cl db (pre @ uid # post) = Return (Some m, Some (ErrWrap e ''GetUsers''))) \<and>
         (BeginErr cl False = None \<and> (\<forall>i\<in>set pre. stored_user cl b i \<noteq> None) \<longrightarrow>
            GetUsers cl db (pre @ uid # post) =
              Return (Some (\<lambda>i. if i \<in> set pre then stored_user cl b i else None),
                      Some (ErrWrap (ErrNotFoundUser uid) ''GetUsers'')))"
proof (intro conjI impI)
  show "\<exists>m e. GetUsers cl db (pre @ uid # post) = Return (Some m, Some (ErrWrap e ''GetUsers''))"
  proof (cases "BeginErr cl False")
    case (Some e)
    then show ?thesis by (simp add: GetUsers_def db_View_def Wrap_def)
  next
    case None
    from GetUsers_loop_missing [where tx = db and b = b and uid = uid and cl = cl
        and ids = "pre @ uid # post" and users = Map.empty] assms
    obtain m e where "GetUsers_loop cl db (pre @ uid # post) Map.empty = Return (m, Some e)"
      by auto
    with None show ?thesis by (simp add: GetUsers_def db_View_def Wrap_def)
  qed
next
  assume h: "BeginErr cl False = None \<and> (\<forall>i\<in>set pre. stored_user cl b i \<noteq> None)"
  then have "GetUsers_loop cl db (pre @ uid # post) Map.empty =
      GetUsers_loop cl db (uid # post) (\<lambda>i. if i \<in> set pre then stored_user cl b i else None)"
    using GetUsers_loop_prefix [where tx = db and b = b and pre = pre and cl = cl
        and rest = "uid # post" and users = Map.empty] assms(1) by simp
  with h assms show "GetUsers cl db (pre @ uid # post) =
      Return (Some (\<lambda>i. if i \<in> set pre then stored_user cl b i else None),
              Some (ErrWrap (ErrNotFoundUser uid) ''GetUsers''))"
    by (simp add: GetUsers_def db_View_def Wrap_def bucket_Get_def)
qed

text \<open>
  The instance: users 1 and 3 are stored, 2 is not. The call fails at 2 and the map
  it returns holds user 1.
\<close>

theorem GetUsers_missing_witness:
  "GetUsers demo some_db ([1] @ 2 # [3]) =
     Return (Some (\<lambda>i. if i \<in> set [1] then stored_user demo some_users i else None),
             Some (ErrWrap (ErrNotFoundUser 2) ''GetUsers'')) \<and>
   stored_user demo some_users 1 = Some alice"
proof -
  have m: "some_users (FormatInt 2) = None"
    by (simp add: some_users_def FormatInt_123)
  have g: "BeginErr demo False = None"
    by (simp add: demo_sel)
  from GetUsers_missing [where db = some_db and b = some_users and uid = 2 and cl = demo
      and pre = "[1]" and post = "[3]", OF some_db_buckets(1) m] g stored_user_alice
  show ?thesis by simp
qed

text \<open>
  The claim as stated, that no partial mapping of the identifiers found before the
  missing one is returned, fails: the call for 1, 2, 3 returns, with the error, the map
  that holds user 1.
\<close>

theorem GetUsers_partial_counterexample:
  "GetUsers demo some_db [1, 2, 3] =
     Return (Some [1 \<mapsto> alice], Some (ErrWrap (ErrNotFoundUser 2) ''GetUsers'')) \<and>
   [1 \<mapsto> alice] \<noteq> (Map.empty :: int \<rightharpoonup> GitHubUser)"
  by (simp add: demo_GetUsers_123)

section \<open>Checks\<close>

text \<open>
  C5. When \<open>Validate\<close> rejects the reference, \<open>GetChecks\<close>, \<open>AddCheck\<close> and \<open>RemoveCheck\<close>
  return that error and the database is what it was. The result does not depend on
  the database or on the engine: no transaction is begun and no bucket is read, so
  the calls return the error even on a database without buckets, where a read would
  panic.
\<close>

theorem invalid_reference_no_access:
  assumes "Validate cl clRef = Some err"
  shows "GetChecks cl db clRef = Return (None, Some err) \<and>
         AddCheck cl db clRef k user = Return (Some err, db) \<and>
         RemoveCheck cl db clRef k user = Return (Some err, db)"
  using assms by (simp add: GetChecks_def AddCheck_def RemoveCheck_def)

theorem invalid_reference_no_access_witness:
  "GetChecks demo Map.empty bad_ref =
     Return (None, Some (ErrInvalidRef ''not a valid checklist reference'')) \<and>
   AddCheck demo some_db bad_ref ''item'' alice =
     Return (Some (ErrInvalidRef ''not a valid checklist reference''), some_db) \<and>
   RemoveCheck demo Map.empty bad_ref ''item'' alice =
     Return (Some (ErrInvalidRef ''not a valid checklist reference''), Map.empty)"
proof -
  have v: "Validate demo bad_ref = Some (ErrInvalidRef ''not a valid checklist reference'')"
    by (simp add: demo_sel ref_Validate_def bad_ref_def)
  show ?thesis
    using invalid_reference_no_access [OF v, of Map.empty "''item''" alice]
      invalid_reference_no_access [OF v, of some_db "''item''" alice]
    by simp
qed

text \<open>
  C4. For a reference that passes validation and whose key is not in the \<open>checks\<close>
  bucket, \<open>GetChecks\<close> (in a read transaction that begins) returns no error and a
  check set without entries: the nil map that \<open>checks\<close> was declared as.
\<close>

theorem GetChecks_fresh:
  assumes "Validate cl clRef = None"
    and "BeginErr cl False = None"
    and "db boltBucketNameChecks = Some b"
    and "b (RefString cl clRef) = None"
  shows "GetChecks cl db clRef = Return (None, None) \<and> entries None = ([] :: Checks)"
  using assms by (simp add: GetChecks_def db_View_def bucket_Get_def Wrap_def entries_def)

theorem GetChecks_fresh_witness:
  "GetChecks demo some_db good_ref = Return (None, None)"
proof -
  have k: "ref_String good_ref = ''o/r#7@qa''"
    by (simp add: ref_String_def good_ref_def FormatInt_def digit_char_def)
  show ?thesis
    using GetChecks_fresh [of demo good_ref some_db "[''other'' \<mapsto> ''0'']"]
    by (simp add: k demo_sel ref_Validate_def some_db_def bucket_names) (simp add: good_ref_def)
qed

text \<open>
  C6. When the bytes stored under the reference's key do not decode, \<open>AddCheck\<close> and
  \<open>RemoveCheck\<close> return an error and the database is what it was, in every case; when
  the reference is valid and the write transaction begins, the error is the decoding
  error itself, returned from inside the transaction, which is rolled back.
\<close>

theorem corrupt_checks_abort:
  assumes "db boltBucketNameChecks = Some b"
    and "b (RefString cl R) = Some data"
    and "UnmarshalChecks cl data = (c, Some err)"
  shows "(\<exists>e. AddCheck cl db R K U = Return (Some e, db)) \<and>
         (\<exists>e. RemoveCheck cl db R K U = Return (Some e, db)) \<and>
         (Validate cl R = None \<and> BeginErr cl True = None \<longrightarrow>
            AddCheck cl db R K U = Return (Some err, db) \<and>
            RemoveCheck cl db R K U = Return (Some err, db))"
proof -
  have d: "decode_at cl b (RefString cl R) = Inl err"
    using assms by (simp add: decode_at_def)
  show ?thesis
  proof (cases "Validate cl R")
    case (Some e)
    then show ?thesis by (simp add: AddCheck_def RemoveCheck_def)
  next
    case None
    show ?thesis
    proof (cases "BeginErr cl True")
      case (Some e)
      with None show ?thesis by (simp add: AddCheck_def RemoveCheck_def db_Update_def)
    next
      case g: None
      show ?thesis
        by (simp add: AddCheck_unfold [of cl R db b, OF None g assms(1)]
            RemoveCheck_unfold [of cl R db b, OF None g assms(1)] d)
    qed
  qed
qed

theorem corrupt_checks_abort_witness:
  "AddCheck demo corrupt_db good_ref ''item'' alice =
     Return (Some (ErrJSON ''cannot decode checks''), corrupt_db) \<and>
   RemoveCheck demo corrupt_db good_ref ''item'' alice =
     Return (Some (ErrJSON ''cannot decode checks''), corrupt_db)"
proof -
  have h: "[''o/r#7@qa'' \<mapsto> ''garbage''] (RefString demo good_ref) = Some ''garbage''"
    "UnmarshalChecks demo ''garbage'' = (None, Some (ErrJSON ''cannot decode checks''))"
    "Validate demo good_ref = None \<and> BeginErr demo True = None"
    by (simp_all add: demo_sel good_ref_facts corrupt_db_facts)
  from corrupt_checks_abort [where db = corrupt_db and cl = demo and R = good_ref
      and K = "''item''" and U = alice, OF corrupt_db_facts(1) h(1) h(2)] h(3)
  show ?thesis by blast
qed





section \<open>Errors\<close>

text \<open>
  C7 (as amended). No operation swallows an error, and only the two read operations
  add context. For each operation, what a returned error is and what a return without
  error implies:
  \<^item> \<open>GetUsers\<close>: every error is wrapped with the message \<open>GetUsers\<close>; without error the
    transaction began and every requested identifier was found and decoded;
  \<^item> \<open>GetChecks\<close>: an error is the validation error as \<open>Validate\<close> made it, or an error
    of the read transaction wrapped with the message \<open>GetChecks\<close>; without error the
    reference is valid, the transaction began and the stored bytes decoded;
  \<^item> \<open>AddUser\<close>, \<open>AddCheck\<close>, \<open>RemoveCheck\<close>: an error is, unwrapped, the error of the
    step that failed (validation, begin, decode, encode, put or commit) and the
    database is unchanged; without error every step that ran succeeded.
\<close>

theorem error_propagation:
  "(GetUsers cl db ids = Return (m, err1) \<longrightarrow>
      (case err1 of
         Some e \<Rightarrow> \<exists>e'. e = ErrWrap e' ''GetUsers''
       | None \<Rightarrow>
          BeginErr cl False = None \<and>
          (\<forall>b. db boltBucketNameUsers = Some b \<longrightarrow>
             (\<forall>i\<in>set ids. stored_user cl b i \<noteq> None) \<and>
             m = Some (\<lambda>i. if i \<in> set ids then stored_user cl b i else None)))) \<and>
   (GetChecks cl db R = Return (checks, err2) \<longrightarrow>
      (case err2 of
         Some e \<Rightarrow>
          Validate cl R = Some e \<or> (Validate cl R = None \<and> (\<exists>e'. e = ErrWrap e' ''GetChecks''))
       | None \<Rightarrow>
          Validate cl R = None \<and> BeginErr cl False = None \<and>
          (\<exists>b. db boltBucketNameChecks = Some b \<and>
             decode_at cl b (RefString cl R) = Inr (entries checks)))) \<and>
   (AddUser cl db user = Return (err3, db3) \<longrightarrow>
      (case err3 of
         Some e \<Rightarrow>
          db3 = db \<and>
          (BeginErr cl True = Some e \<or> MarshalUser cl user = Inl e \<or>
           (\<exists>buf. MarshalUser cl user = Inr buf \<and> PutErr cl (FormatInt (ID user)) buf = Some e) \<or>
           CommitErr cl = Some e)
       | None \<Rightarrow>
          BeginErr cl True = None \<and> CommitErr cl = None \<and>
          (\<exists>buf b. MarshalUser cl user = Inr buf \<and> PutErr cl (FormatInt (ID user)) buf = None \<and>
             db boltBucketNameUsers = Some b \<and>
             db3 = db(boltBucketNameUsers \<mapsto> b(FormatInt (ID user) \<mapsto> buf))))) \<and>
   (AddCheck cl db R K U = Return (err4, db4) \<longrightarrow>
      (case err4 of
         Some e \<Rightarrow>
          db4 = db \<and>
          (Validate cl R = Some e \<or> BeginErr cl True = Some e \<or> CommitErr cl = Some e \<or>
           (\<exists>b. db boltBucketNameChecks = Some b \<and>
              (decode_at cl b (RefString cl R) = Inl e \<or>
               (\<exists>c. decode_at cl b (RefString cl R) = Inr c \<and>
                  (MarshalChecks cl (snd (Checks_Add K U c)) = Inl e \<or>
                   (\<exists>data. MarshalChecks cl (snd (Checks_Add K U c)) = Inr data \<and>
                      PutErr cl (RefString cl R) data = Some e))))))
       | None \<Rightarrow>
          Validate cl R = None \<and> BeginErr cl True = None \<and> CommitErr cl = None \<and>
          (\<exists>b c. db boltBucketNameChecks = Some b \<and> decode_at cl b (RefString cl R) = Inr c \<and>
             (if fst (Checks_Add K U c) then
                (\<exists>data. MarshalChecks cl (snd (Checks_Add K U c)) = Inr data \<and>
                   PutErr cl (RefString cl R) data = None \<and>
                   db4 = db(boltBucketNameChecks \<mapsto> b(RefString cl R \<mapsto> data)))
              else db4 = db)))) \<and>
   (RemoveCheck cl db R K U = Return (err5, db5) \<longrightarrow>
      (case err5 of
         Some e \<Rightarrow>
          db5 = db \<and>
          (Validate cl R = Some e \<or> BeginErr cl True = Some e \<or> CommitErr cl = Some e \<or>
           (\<exists>b. db boltBucketNameChecks = Some b \<and>
              (decode_at cl b (RefString cl R) = Inl e \<or>
               (\<exists>c. decode_at cl b (RefString cl R) = Inr c \<and>
                  (MarshalChecks cl (snd (Checks_Remove K U c)) = Inl e \<or>
                   (\<exists>data. MarshalChecks cl (snd (Checks_Remove K U c)) = Inr data \<and>
                      PutErr cl (RefString cl R) data = Some e))))))
       | None \<Rightarrow>
          Validate cl R = None \<and> BeginErr cl True = None \<and> CommitErr cl = None \<and>
          (\<exists>b c. db boltBucketNameChecks = Some b \<and> decode_at cl b (RefString cl R) = Inr c \<and>
             (if fst (Checks_Remove K U c) then
                (\<exists>data. MarshalChecks cl (snd (Checks_Remove K U c)) = Inr data \<and>
                   PutErr cl (RefString cl R) data = None \<and>
                   db5 = db(boltBucketNameChecks \<mapsto> b(RefString cl R \<mapsto> data)))
              else db5 = db))))"
proof (intro conjI impI)
  assume "GetUsers cl db ids = Return (m, err1)"
  then show "case err1 of
         Some e \<Rightarrow> \<exists>e'. e = ErrWrap e' ''GetUsers''
       | None \<Rightarrow>
          BeginErr cl False = None \<and>
          (\<forall>b. db boltBucketNameUsers = Some b \<longrightarrow>
             (\<forall>i\<in>set ids. stored_user cl b i \<noteq> None) \<and>
             m = Some (\<lambda>i. if i \<in> set ids then stored_user cl b i else None))"
    using GetUsers_error [of cl db ids m] GetUsers_success [of cl db ids m]
    by (cases err1) simp_all
next
  assume "GetChecks cl db R = Return (checks, err2)"
  then show "case err2 of
         Some e \<Rightarrow>
          Validate cl R = Some e \<or> (Validate cl R = None \<and> (\<exists>e'. e = ErrWrap e' ''GetChecks''))
       | None \<Rightarrow>
          Validate cl R = None \<and> BeginErr cl False = None \<and>
          (\<exists>b. db boltBucketNameChecks = Some b \<and>
             decode_at cl b (RefString cl R) = Inr (entries checks))"
    using GetChecks_error [of cl db R checks] GetChecks_success [of cl db R checks]
    by (cases err2) simp_all
next
  assume "AddUser cl db user = Return (err3, db3)"
  then show "case err3 of
         Some e \<Rightarrow>
          db3 = db \<and>
          (BeginErr cl True = Some e \<or> MarshalUser cl user = Inl e \<or>
           (\<exists>buf. MarshalUser cl user = Inr buf \<and> PutErr cl (FormatInt (ID user)) buf = Some e) \<or>
           CommitErr cl = Some e)
       | None \<Rightarrow>
          BeginErr cl True = None \<and> CommitErr cl = None \<and>
          (\<exists>buf b. MarshalUser cl user = Inr buf \<and> PutErr cl (FormatInt (ID user)) buf = None \<and>
             db boltBucketNameUsers = Some b \<and>
             db3 = db(boltBucketNameUsers \<mapsto> b(FormatInt (ID user) \<mapsto> buf)))"
    using AddUser_error [of cl db user _ db3] AddUser_success [of cl db user db3]
    by (cases err3) simp_all
next
  assume "AddCheck cl db R K U = Return (err4, db4)"
  then show "case err4 of
         Some e \<Rightarrow>
          db4 = db \<and>
          (Validate cl R = Some e \<or> BeginErr cl True = Some e \<or> CommitErr cl = Some e \<or>
           (\<exists>b. db boltBucketNameChecks = Some b \<and>
              (decode_at cl b (RefString cl R) = Inl e \<or>
               (\<exists>c. decode_at cl b (RefString cl R) = Inr c \<and>
                  (MarshalChecks cl (snd (Checks_Add K U c)) = Inl e \<or>
                   (\<exists>data. MarshalChecks cl (snd (Checks_Add K U c)) = Inr data \<and>
                      PutErr cl (RefString cl R) data = Some e))))))
       | None \<Rightarrow>
          Validate cl R = None \<and> BeginErr cl True = None \<and> CommitErr cl = None \<and>
          (\<exists>b c. db boltBucketNameChecks = Some b \<and> decode_at cl b (RefString cl R) = Inr c \<and>
             (if fst (Checks_Add K U c) then
                (\<exists>data. MarshalChecks cl (snd (Checks_Add K U c)) = Inr data \<and>
                   PutErr cl (RefString cl R) data = None \<and>
                   db4 = db(boltBucketNameChecks \<mapsto> b(RefString cl R \<mapsto> data)))
              else db4 = db))"
    using AddCheck_error [of cl db R K U _ db4] AddCheck_success [of cl db R K U db4]
    by (cases err4) simp_all
next
  assume "RemoveCheck cl db R K U = Return (err5, db5)"
  then show "case err5 of
         Some e \<Rightarrow>
          db5 = db \<and>
          (Validate cl R = Some e \<or> BeginErr cl True = Some e \<or> CommitErr cl = Some e \<or>
           (\<exists>b. db boltBucketNameChecks = Some b \<and>
              (decode_at cl b (RefString cl R) = Inl e \<or>
               (\<exists>c. decode_at cl b (RefString cl R) = Inr c \<and>
                  (MarshalChecks cl (snd (Checks_Remove K U c)) = Inl e \<or>
                   (\<exists>data. MarshalChecks cl (snd (Checks_Remove K U c)) = Inr data \<and>
                      PutErr cl (RefString cl R) data = Some e))))))
       | None \<Rightarrow>
          Validate cl R = None \<and> BeginErr cl True = None \<and> CommitErr cl = None \<and>
          (\<exists>b c. db boltBucketNameChecks = Some b \<and> decode_at cl b (RefString cl R) = Inr c \<and>
             (if fst (Checks_Remove K U c) then
                (\<exists>data. MarshalChecks cl (snd (Checks_Remove K U c)) = Inr data \<and>
                   PutErr cl (RefString cl R) data = None \<and>
                   db5 = db(boltBucketNameChecks \<mapsto> b(RefString cl R \<mapsto> data)))
              else db5 = db))"
    using RemoveCheck_error [of cl db R K U _ db5] RemoveCheck_success [of cl db R K U db5]
    by (cases err5) simp_all
qed

text \<open>
  The instance: a missing user, undecodable checks and, for \<open>AddUser\<close>, an engine whose
  commit fails.
\<close>

theorem error_propagation_witness:
  "GetUsers demo some_db [1, 2, 3] =
     Return (Some [1 \<mapsto> alice], Some (ErrWrap (ErrNotFoundUser 2) ''GetUsers'')) \<and>
   GetChecks demo corrupt_db good_ref =
     Return (None, Some (ErrWrap (ErrJSON ''cannot decode checks'') ''GetChecks'')) \<and>
   Validate demo good_ref = None \<and>
   AddUser (demo\<lparr>CommitErr := Some (ErrBolt ''commit'')\<rparr>) empty_db alice =
     Return (Some (ErrBolt ''commit''), empty_db) \<and>
   AddCheck demo corrupt_db good_ref ''item'' alice =
     Return (Some (ErrJSON ''cannot decode checks''), corrupt_db) \<and>
   RemoveCheck demo corrupt_db good_ref ''item'' alice =
     Return (Some (ErrJSON ''cannot decode checks''), corrupt_db) \<and>
   decode_at demo [''o/r#7@qa'' \<mapsto> ''garbage''] ''o/r#7@qa'' =
     Inl (ErrJSON ''cannot decode checks'')"
proof -
  have u: "AddUser (demo\<lparr>CommitErr := Some (ErrBolt ''commit'')\<rparr>) empty_db alice =
      Return (Some (ErrBolt ''commit''), empty_db)"
    by (simp add: AddUser_def db_Update_def bucket_Put_def demo_def enc_user_def empty_db_def
        bucket_names FormatInt_def digit_char_def alice_def)
  have d: "decode_at demo [''o/r#7@qa'' \<mapsto> ''garbage''] ''o/r#7@qa'' =
      Inl (ErrJSON ''cannot decode checks'')"
    by (simp add: decode_at_def demo_sel corrupt_db_facts)
  have v: "Validate demo good_ref = None"
    by (simp add: demo_sel good_ref_facts)
  from error_propagation [where cl = demo and db = some_db and ids = "[1, 2, 3]"
      and m = "Some [1 \<mapsto> alice]" and ?err1.0 = "Some (ErrWrap (ErrNotFoundUser 2) ''GetUsers'')"]
    error_propagation [where cl = demo and db = corrupt_db and R = good_ref
      and checks = None and ?err2.0 = "Some (ErrWrap (ErrJSON ''cannot decode checks'') ''GetChecks'')"
      and K = "''item''" and U = alice
      and ?err4.0 = "Some (ErrJSON ''cannot decode checks'')" and ?db4.0 = corrupt_db
      and ?err5.0 = "Some (ErrJSON ''cannot decode checks'')" and ?db5.0 = corrupt_db]
    error_propagation [where cl = "demo\<lparr>CommitErr := Some (ErrBolt ''commit'')\<rparr>"
      and db = empty_db and user = alice and ?err3.0 = "Some (ErrBolt ''commit'')"
      and ?db3.0 = empty_db]
    demo_GetUsers_123 demo_GetChecks_corrupt demo_AddCheck_corrupt demo_RemoveCheck_corrupt u d v
  show ?thesis by simp
qed

text \<open>
  The claim as stated, that every error is returned wrapped with the operation's name
  and key, fails: \<open>AddCheck\<close> on undecodable stored bytes returns the decoder's error
  as it is.
\<close>

theorem AddCheck_unwrapped_counterexample:
  "AddCheck demo corrupt_db good_ref ''item'' alice =
     Return (Some (ErrJSON ''cannot decode checks''), corrupt_db) \<and>
   \<not> is_wrapped (ErrJSON ''cannot decode checks'')"
  by (simp add: demo_AddCheck_corrupt is_wrapped_def)

end
